theory Spec2Isabelle
  imports Main "HOL-Library.Sublist"
begin

section \<open>JavaScript values and string primitives used by routes/index.js\<close>

text \<open>
  A query parameter and a schema field of type String hold either a string or nothing;
  \<open>Undefined\<close> is JavaScript's \<open>undefined\<close> (the parameter was not sent). Strings are
  lists of characters, \<open>length\<close> is the \<open>.length\<close> of the source, and the text is
  taken to be ASCII: one character for each code unit, upper and lower case only for the
  letters A to Z.
\<close>

datatype jsval = Undefined | Str string

datatype error = TypeError

text \<open>\<open>ToString\<close>: what string concatenation and \<open>parseInt\<close> make of a value.\<close>

fun ToString :: "jsval \<Rightarrow> string" where
  "ToString Undefined = ''undefined''"
| "ToString (Str s) = s"

text \<open>\<open>x || ''\<close> for a value that is a string or undefined: the empty string and
  \<open>undefined\<close> are falsy, every other string is truthy. The result is always a string.\<close>

fun or_empty :: "jsval \<Rightarrow> string" where
  "or_empty Undefined = ''''"
| "or_empty (Str s) = (if s = [] then '''' else s)"

text \<open>\<open>String.prototype.toLowerCase\<close> on the letters A to Z; every other character is
  kept as it is.\<close>

definition toLowerCase_char :: "char \<Rightarrow> char" where
  "toLowerCase_char c =
     (case map_of (zip ''ABCDEFGHIJKLMNOPQRSTUVWXYZ'' ''abcdefghijklmnopqrstuvwxyz'') c of
        Some l \<Rightarrow> l
      | None \<Rightarrow> c)"

definition toLowerCase :: "string \<Rightarrow> string" where
  "toLowerCase s = map toLowerCase_char s"

text \<open>\<open>s.indexOf(t)\<close>: the position of the first occurrence of \<open>t\<close> in \<open>s\<close>, or \<open>-1\<close>.\<close>

fun indexOf_from :: "string \<Rightarrow> string \<Rightarrow> int \<Rightarrow> int" where
  "indexOf_from [] t k = (if t = [] then k else - 1)"
| "indexOf_from (x # xs) t k = (if prefix t (x # xs) then k else indexOf_from xs t (k + 1))"

definition indexOf :: "string \<Rightarrow> string \<Rightarrow> int" where
  "indexOf s t = indexOf_from s t 0"

text \<open>\<open>s.charAt(i)\<close>: the one-character string at position \<open>i\<close>, the empty string out
  of range.\<close>

definition charAt :: "string \<Rightarrow> nat \<Rightarrow> string" where
  "charAt s i = (if i < length s then [s ! i] else '''')"

text \<open>\<open>xs.join(sep)\<close>.\<close>

fun join :: "string list \<Rightarrow> string \<Rightarrow> string" where
  "join [] sep = ''''"
| "join [x] sep = x"
| "join (x # y # ys) sep = x @ sep @ join (y # ys) sep"

subsection \<open>parseInt\<close>

text \<open>
  \<open>parseInt(string)\<close> with no radix: leading white space is skipped (of the ASCII
  characters: tab, line feed, vertical tab, form feed, carriage return, space; the
  white space JavaScript knows beyond ASCII is outside the model), a sign is read,
  a prefix \<open>0x\<close> or \<open>0X\<close> selects radix 16, and the longest run of digits of the radix
  is the value. \<open>None\<close> is \<open>NaN\<close> (no digit was found). The value is only ever compared
  with 5 and 7, so the unbounded integer stands for the JavaScript number.
\<close>

definition is_white :: "char \<Rightarrow> bool" where
  "is_white c = (c \<in> set [CHR 0x09, CHR 0x0A, CHR 0x0B, CHR 0x0C, CHR 0x0D, CHR 0x20])"

definition digit_value :: "char \<Rightarrow> nat option" where
  "digit_value c =
     (case map_of (zip ''0123456789abcdefghijklmnopqrstuvwxyz'' [0 ..< 36]) (toLowerCase_char c) of
        Some d \<Rightarrow> Some d
      | None \<Rightarrow> None)"

definition is_digit :: "nat \<Rightarrow> char \<Rightarrow> bool" where
  "is_digit R c = (case digit_value c of Some d \<Rightarrow> d < R | None \<Rightarrow> False)"

definition digits_value :: "nat \<Rightarrow> string \<Rightarrow> int" where
  "digits_value R Z =
     foldl (\<lambda>acc c. acc * int R + (case digit_value c of Some d \<Rightarrow> int d | None \<Rightarrow> 0)) 0 Z"

definition parseInt :: "string \<Rightarrow> int option" where
  "parseInt inputString =
     (let S = dropWhile is_white inputString;
          sign = (if take 1 S = ''-'' then - 1 else 1 :: int);
          S1 = (if take 1 S = ''-'' \<or> take 1 S = ''+'' then drop 1 S else S);
          R = (if take 2 S1 = ''0x'' \<or> take 2 S1 = ''0X'' then 16 else 10 :: nat);
          S2 = (if take 2 S1 = ''0x'' \<or> take 2 S1 = ''0X'' then drop 2 S1 else S1);
          Z = takeWhile (is_digit R) S2
      in if Z = [] then None else Some (sign * digits_value R Z))"

section \<open>The Pangram model\<close>

text \<open>A Pangram document: the three schema paths. \<open>new Pangram({...})\<close> copies the
  three query parameters into it.\<close>

record pangram =
  line1_5 :: jsval
  line2_7 :: jsval
  line3_5 :: jsval

text \<open>\<open>PangramSchema.methods.character_count\<close>: reading \<open>.length\<close> of \<open>undefined\<close>
  throws a TypeError.\<close>

definition character_count :: "pangram \<Rightarrow> error + nat" where
  "character_count this =
     (case (line1_5 this, line2_7 this, line3_5 this) of
        (Str a, Str b, Str c) \<Rightarrow> Inr (length a + length b + length c)
      | _ \<Rightarrow> Inl TypeError)"

subsection \<open>The letter-coverage validator\<close>

definition letters :: string where
  "letters = ''zqxjkvbpygfwmucldrhsnioate''"

text \<open>The \<open>for\<close> loop with its \<open>break\<close>: \<open>i\<close> is the loop counter, the third argument
  the variable \<open>is_pangram\<close>.\<close>

function pangram_loop :: "string \<Rightarrow> nat \<Rightarrow> bool \<Rightarrow> bool" where
  "pangram_loop s i is_pangram =
     (if i < 26
      then (if indexOf s (charAt letters i) = - 1 then False
            else pangram_loop s (Suc i) is_pangram)
      else is_pangram)"
  by pat_completeness auto
termination
  by (relation "measure (\<lambda>(s, i, b). 26 - i)") auto

declare pangram_loop.simps [simp del]

definition pangram_validator :: "pangram \<Rightarrow> jsval \<Rightarrow> bool" where
  "pangram_validator this value =
     (let s = toLowerCase (or_empty (line1_5 this) @ or_empty (line2_7 this)
                             @ or_empty (line3_5 this))
      in pangram_loop s 0 True)"

subsection \<open>The syllable validators\<close>

text \<open>
  The word-info service is outside the program: \<open>getWordInfo value\<close> is what
  \<open>result.body\<close> holds when the request for \<open>word: value\<close> ends. \<open>NoBody\<close> is a
  result without a body (the request failed, \<open>result.body\<close> is \<open>undefined\<close>);
  \<open>Body v\<close> is a body whose property \<open>syllables\<close> is \<open>v\<close>: \<open>Undefined\<close> when the body
  has no such property, and a number is given by its decimal text, which is what
  \<open>parseInt\<close> reads of it.
\<close>

datatype body = NoBody | Body jsval

type_synonym word_info = "jsval \<Rightarrow> body"

text \<open>\<open>validate_syllables\<close>: one request, no handling of a failed one. Reading
  \<open>data.syllables\<close> of an undefined \<open>data\<close> throws; otherwise the callback gets the
  comparison, and \<open>NaN == n\<close> is false.\<close>

definition validate_syllables :: "word_info \<Rightarrow> jsval \<Rightarrow> int \<Rightarrow> error + bool" where
  "validate_syllables getWordInfo value required_syllables =
     (case getWordInfo value of
        NoBody \<Rightarrow> Inl TypeError
      | Body data_syllables \<Rightarrow>
          (let syllables = parseInt (ToString data_syllables)
           in Inr (syllables = Some required_syllables)))"

section \<open>Mongoose: schema validation and save\<close>

text \<open>
  The library's part in the program, as far as the routes rely on it. A schema path
  carries a list of validators, each with its message: the built-in \<open>required\<close> check
  first, then the ones added with \<open>.validate\<close>, in the order of the calls. Validating a
  path runs them in that order and stops at the first that fails; its message is the
  error of the path (\<open>err.errors[path].message\<close>). A validator that throws ends the
  request without a response. \<open>save\<close> validates every path and inserts the document
  only if no path has an error.
\<close>

type_synonym validator = "pangram \<Rightarrow> jsval \<Rightarrow> error + bool"

definition sync :: "(pangram \<Rightarrow> jsval \<Rightarrow> bool) \<Rightarrow> validator" where
  "sync f = (\<lambda>this value. Inr (f this value))"

text \<open>\<open>required: true\<close> on a String path: the value must be a non-empty string.\<close>

definition required :: "pangram \<Rightarrow> jsval \<Rightarrow> bool" where
  "required this value = (case value of Undefined \<Rightarrow> False | Str s \<Rightarrow> s \<noteq> [])"

definition required_message :: "string \<Rightarrow> string" where
  "required_message path = ''Path `'' @ path @ ''` is required.''"

fun doValidate :: "(validator \<times> string) list \<Rightarrow> pangram \<Rightarrow> jsval \<Rightarrow> error + string option" where
  "doValidate [] this value = Inr None"
| "doValidate ((v, message) # vs) this value =
     (case v this value of
        Inl e \<Rightarrow> Inl e
      | Inr ok \<Rightarrow> (if ok then doValidate vs this value else Inr (Some message)))"

type_synonym schema = "(string \<times> (pangram \<Rightarrow> jsval) \<times> (validator \<times> string) list) list"

text \<open>The schema of the source: the three paths, each with \<open>required: true\<close>, and the
  four calls of \<open>PangramSchema.path(...).validate\<close> in their order.\<close>

definition PangramSchema :: "word_info \<Rightarrow> schema" where
  "PangramSchema getWordInfo =
     [(''line1_5'', line1_5,
        [(sync required, required_message ''line1_5''),
         (\<lambda>this value. validate_syllables getWordInfo value 5,
          ''Line 1 doesn't have 5 syllables.'')]),
      (''line2_7'', line2_7,
        [(sync required, required_message ''line2_7''),
         (sync pangram_validator, ''Not a pangram!''),
         (\<lambda>this value. validate_syllables getWordInfo value 7,
          ''Line 2 doesn't have 7 syllables.'')]),
      (''line3_5'', line3_5,
        [(sync required, required_message ''line3_5''),
         (\<lambda>this value. validate_syllables getWordInfo value 5,
          ''Line 3 doesn't have 5 syllables.'')])]"

text \<open>\<open>validate\<close>: the errors of all paths, as the list of (path, message) that
  \<open>err.errors\<close> holds; the empty list means the document is valid.\<close>

fun validate :: "schema \<Rightarrow> pangram \<Rightarrow> error + (string \<times> string) list" where
  "validate [] this = Inr []"
| "validate ((path, getter, vs) # rest) this =
     (case doValidate vs this (getter this) of
        Inl e \<Rightarrow> Inl e
      | Inr r \<Rightarrow>
          (case validate rest this of
             Inl e \<Rightarrow> Inl e
           | Inr errors \<Rightarrow>
               Inr (case r of None \<Rightarrow> errors | Some message \<Rightarrow> (path, message) # errors)))"

text \<open>
  The collection: the documents with their \<open>_id\<close>, in the order of insertion. An
  inserted document gets an \<open>_id\<close> above every \<open>_id\<close> of the collection, as the
  ObjectIds of one server process do. The database itself is taken to work: an
  insertion or a query does not fail.
\<close>

type_synonym store = "(nat \<times> pangram) list"

definition next_oid :: "store \<Rightarrow> nat" where
  "next_oid db = fold (\<lambda>d m. max (Suc (fst d)) m) db 0"

text \<open>\<open>pangram.save(callback)\<close>: the argument of the callback (\<open>None\<close> for no error,
  \<open>Some errors\<close> for a validation error) and the collection afterwards.\<close>

definition save :: "word_info \<Rightarrow> pangram \<Rightarrow> store \<Rightarrow> (error + (string \<times> string) list option) \<times> store" where
  "save getWordInfo doc db =
     (case validate (PangramSchema getWordInfo) doc of
        Inl e \<Rightarrow> (Inl e, db)
      | Inr errors \<Rightarrow>
          (if errors = [] then (Inr None, db @ [(next_oid db, doc)])
           else (Inr (Some errors), db)))"

text \<open>\<open>Pangram.find().sort({_id: -1})\<close>.\<close>

definition find_sorted :: "store \<Rightarrow> pangram list" where
  "find_sorted db = map snd (rev (sort_key fst db))"

section \<open>The routes\<close>

type_synonym query = "string \<Rightarrow> jsval"

record locals =
  params :: "(string \<times> jsval) list"
  pangrams :: "pangram list"
  layout :: string

datatype response = Redirect string | Render string locals

text \<open>\<open>router.get('/')\<close>.\<close>

definition home :: "query \<Rightarrow> store \<Rightarrow> response" where
  "home query db =
     Render ''home''
       \<lparr>params = [(''error'', query ''error''), (''line1_5'', query ''line1_5''),
                  (''line2_7'', query ''line2_7''), (''line3_5'', query ''line3_5'')],
        pangrams = find_sorted db,
        layout = ''layout''\<rparr>"

text \<open>The messages pushed by the \<open>save\<close> callback, one \<open>if\<close> for each path.\<close>

definition pushed_errors :: "(string \<times> string) list \<Rightarrow> string list" where
  "pushed_errors errors =
     (case map_of errors ''line1_5'' of Some m \<Rightarrow> [m] | None \<Rightarrow> [])
     @ (case map_of errors ''line2_7'' of Some m \<Rightarrow> [m] | None \<Rightarrow> [])
     @ (case map_of errors ''line3_5'' of Some m \<Rightarrow> [m] | None \<Rightarrow> [])"

definition new_Pangram :: "query \<Rightarrow> pangram" where
  "new_Pangram query =
     \<lparr>line1_5 = query ''line1_5'', line2_7 = query ''line2_7'', line3_5 = query ''line3_5''\<rparr>"

text \<open>\<open>router.get('/create')\<close>: the response (or the exception that ended the request)
  and the collection afterwards.\<close>

definition create :: "word_info \<Rightarrow> query \<Rightarrow> store \<Rightarrow> (error + response) \<times> store" where
  "create getWordInfo query db =
     (case save getWordInfo (new_Pangram query) db of
        (Inl e, db') \<Rightarrow> (Inl e, db')
      | (Inr (Some errors), db') \<Rightarrow>
          (Inr (Redirect (''/?error='' @ join (pushed_errors errors) '' ''
                          @ ''&line1_5='' @ ToString (query ''line1_5'')
                          @ ''&line2_7='' @ ToString (query ''line2_7'')
                          @ ''&line3_5='' @ ToString (query ''line3_5''))), db')
      | (Inr None, db') \<Rightarrow> (Inr (Redirect ''/''), db'))"

text \<open>A run of the server on a collection: the create requests served, in their
  order, each with the answers the word-info service gave during it. The route
  \<open>/about\<close> renders a static page and touches nothing.\<close>

fun serve :: "(word_info \<times> query) list \<Rightarrow> store \<Rightarrow> store" where
  "serve [] db = db"
| "serve ((getWordInfo, query) # reqs) db = serve reqs (snd (create getWordInfo query db))"

section \<open>Notions of the specification\<close>

text \<open>The text the letter rule is about: the three lines, an absent one counting as
  empty, concatenated and lowercased; and what it means to contain all 26 letters.\<close>

definition alphabet :: string where
  "alphabet = ''abcdefghijklmnopqrstuvwxyz''"

fun line_text :: "jsval \<Rightarrow> string" where
  "line_text Undefined = ''''"
| "line_text (Str s) = s"

definition combined_text :: "pangram \<Rightarrow> string" where
  "combined_text doc =
     toLowerCase (line_text (line1_5 doc) @ line_text (line2_7 doc) @ line_text (line3_5 doc))"

definition covers_alphabet :: "string \<Rightarrow> bool" where
  "covers_alphabet s = list_all (\<lambda>c. c \<in> set s) alphabet"

text \<open>The syllable count of a line: the number the service's answer holds for it,
  if it holds one.\<close>

definition service_syllables :: "word_info \<Rightarrow> jsval \<Rightarrow> int option" where
  "service_syllables getWordInfo value =
     (case getWordInfo value of NoBody \<Rightarrow> None | Body v \<Rightarrow> parseInt (ToString v))"

text \<open>A line that was submitted and is not empty.\<close>

definition line_ok :: "jsval \<Rightarrow> bool" where
  "line_ok v = (v \<noteq> Undefined \<and> v \<noteq> Str '''')"

text \<open>Every rule a document breaks, with the path the rule is attached to and its
  message, path by path and in the order of the path's rules.\<close>

definition failing_rules :: "word_info \<Rightarrow> pangram \<Rightarrow> (string \<times> string) list" where
  "failing_rules getWordInfo doc =
     (if line_ok (line1_5 doc) then [] else [(''line1_5'', required_message ''line1_5'')])
     @ (if service_syllables getWordInfo (line1_5 doc) = Some 5 then []
        else [(''line1_5'', ''Line 1 doesn't have 5 syllables.'')])
     @ (if line_ok (line2_7 doc) then [] else [(''line2_7'', required_message ''line2_7'')])
     @ (if covers_alphabet (combined_text doc) then [] else [(''line2_7'', ''Not a pangram!'')])
     @ (if service_syllables getWordInfo (line2_7 doc) = Some 7 then []
        else [(''line2_7'', ''Line 2 doesn't have 7 syllables.'')])
     @ (if line_ok (line3_5 doc) then [] else [(''line3_5'', required_message ''line3_5'')])
     @ (if service_syllables getWordInfo (line3_5 doc) = Some 5 then []
        else [(''line3_5'', ''Line 3 doesn't have 5 syllables.'')])"

text \<open>For each path, the message of the first rule it breaks.\<close>

definition surfaced_messages :: "word_info \<Rightarrow> pangram \<Rightarrow> string list" where
  "surfaced_messages getWordInfo doc =
     List.map_filter (map_of (failing_rules getWordInfo doc))
       [''line1_5'', ''line2_7'', ''line3_5'']"

text \<open>Invariants of the collection: the \<open>_id\<close>s grow with the insertions, and every
  stored document has its three lines.\<close>

definition ids_increasing :: "store \<Rightarrow> bool" where
  "ids_increasing db = sorted_wrt (<) (map fst db)"

definition stored_ok :: "pangram \<Rightarrow> bool" where
  "stored_ok d = (required d (line1_5 d) \<and> required d (line2_7 d) \<and> required d (line3_5 d))"

text \<open>The list of pangrams a response passes to its template.\<close>

fun rendered_pangrams :: "response \<Rightarrow> pangram list" where
  "rendered_pangrams (Render view l) = pangrams l"
| "rendered_pangrams (Redirect url) = []"

section \<open>Example requests\<close>

text \<open>A submission that is a pangram, and a service that answers 5, 7 and 5 for its
  lines (and 4 for the short second line used below).\<close>

definition ex_query :: query where
  "ex_query =
     (\<lambda>k. Undefined)
       (''line1_5'' := Str ''The quick brown fox jumps'',
        ''line2_7'' := Str ''over the lazy dog and'',
        ''line3_5'' := Str ''into the sunset'')"

definition ex_service :: word_info where
  "ex_service value =
     (case map_of
        [(Str ''The quick brown fox jumps'', Body (Str ''5'')),
         (Str ''over the lazy dog and'', Body (Str ''7'')),
         (Str ''into the sunset'', Body (Str ''5'')),
         (Str ''over the dog and'', Body (Str ''4''))] value of
        Some b \<Rightarrow> b
      | None \<Rightarrow> Body Undefined)"

text \<open>The same submission with a second line that has neither the letters l, a, z, y
  nor seven syllables.\<close>

definition short_query :: query where
  "short_query = ex_query(''line2_7'' := Str ''over the dog and'')"

text \<open>A service whose request for the first line fails.\<close>

definition failing_service :: word_info where
  "failing_service value =
     (if value = Str ''The quick brown fox jumps'' then NoBody else ex_service value)"

text \<open>The same submission with a third line the service knows nothing about.\<close>

definition unknown_query :: query where
  "unknown_query = ex_query(''line3_5'' := Str ''at dusk'')"

text \<open>Submissions with characters that have a meaning in a URL: a first line with
  \<open>&\<close>, \<open>=\<close> and \<open>#\<close>, and two submissions that place the text
  \<open>&line2_7=\<close> in the first and in the second line.\<close>

definition amp_query :: query where
  "amp_query =
     (\<lambda>k. Undefined)
       (''line1_5'' := Str ''a&b=c#d'', ''line2_7'' := Str ''e'', ''line3_5'' := Str ''f'')"

definition left_query :: query where
  "left_query =
     (\<lambda>k. Undefined)
       (''line1_5'' := Str ''a&line2_7=b'', ''line2_7'' := Str ''c'', ''line3_5'' := Str ''d'')"

definition right_query :: query where
  "right_query =
     (\<lambda>k. Undefined)
       (''line1_5'' := Str ''a'', ''line2_7'' := Str ''b&line2_7=c'', ''line3_5'' := Str ''d'')"

section \<open>Properties of the model\<close>

lemma or_empty_line_text: "or_empty v = line_text v"
  by (cases v) auto

lemma indexOf_from_nonneg: "0 \<le> k \<Longrightarrow> indexOf_from s [c] k = - 1 \<longleftrightarrow> c \<notin> set s"
proof (induction s arbitrary: k)
  case Nil
  then show ?case by simp
next
  case (Cons x xs)
  have "0 \<le> k + 1" using Cons.prems by simp
  from Cons.IH [OF this] Cons.prems show ?case by auto
qed

lemma indexOf_single: "indexOf s [c] = - 1 \<longleftrightarrow> c \<notin> set s"
  by (simp add: indexOf_def indexOf_from_nonneg)

lemma length_letters: "length letters = 26"
  by (simp add: letters_def)

lemma pangram_loop_iff:
  "pangram_loop s i b \<longleftrightarrow> (\<forall>j. i \<le> j \<and> j < 26 \<longrightarrow> letters ! j \<in> set s) \<and> b"
proof (induction s i b rule: pangram_loop.induct)
  case (1 s i is_pangram)
  show ?case
  proof (cases "i < 26")
    case False
    then show ?thesis by (subst pangram_loop.simps) auto
  next
    case True
    note lt = True
    show ?thesis
    proof (cases "letters ! i \<in> set s")
      case False
      with lt have "\<not> pangram_loop s i is_pangram"
        by (subst pangram_loop.simps) (simp add: charAt_def length_letters indexOf_single)
      moreover from False lt have "\<not> (\<forall>j. i \<le> j \<and> j < 26 \<longrightarrow> letters ! j \<in> set s)"
        by auto
      ultimately show ?thesis by simp
    next
      case True
      with lt have ne: "indexOf s (charAt letters i) \<noteq> - 1"
        by (simp add: charAt_def length_letters indexOf_single)
      from lt ne have "pangram_loop s i is_pangram = pangram_loop s (Suc i) is_pangram"
        by (subst pangram_loop.simps) simp
      also have "\<dots> \<longleftrightarrow> (\<forall>j. Suc i \<le> j \<and> j < 26 \<longrightarrow> letters ! j \<in> set s) \<and> is_pangram"
        using "1.IH" [OF lt ne] .
      also have "(\<forall>j. Suc i \<le> j \<and> j < 26 \<longrightarrow> letters ! j \<in> set s)
                 \<longleftrightarrow> (\<forall>j. i \<le> j \<and> j < 26 \<longrightarrow> letters ! j \<in> set s)"
        using True by (metis Suc_leI le_neq_implies_less Suc_leD)
      finally show ?thesis .
    qed
  qed
qed

lemma set_letters: "set letters = set alphabet"
  by (auto simp: letters_def alphabet_def)

lemma pangram_validator_iff:
  "pangram_validator this value \<longleftrightarrow> covers_alphabet (combined_text this)"
proof -
  have "(\<forall>j. 0 \<le> j \<and> j < 26 \<longrightarrow> letters ! j \<in> set s) \<longleftrightarrow> set letters \<subseteq> set s" for s
    using length_letters by (auto simp: in_set_conv_nth subset_iff)
  then show ?thesis
    by (auto simp: pangram_validator_def pangram_loop_iff covers_alphabet_def combined_text_def
        or_empty_line_text set_letters list_all_iff subset_iff)
qed

lemma validate_syllables_True_iff:
  "validate_syllables g v n = Inr True \<longleftrightarrow> service_syllables g v = Some n"
  by (auto simp: validate_syllables_def service_syllables_def split: body.splits)

lemma validate_syllables_NoBody:
  "g v = NoBody \<Longrightarrow> validate_syllables g v n = Inl TypeError"
  by (simp add: validate_syllables_def)

lemma doValidate_line1:
  "doValidate [(sync required, m0), (\<lambda>this value. validate_syllables g value n, m1)] doc v =
     (if \<not> required doc v then Inr (Some m0)
      else case validate_syllables g v n of Inl e \<Rightarrow> Inl e
           | Inr ok \<Rightarrow> Inr (if ok then None else Some m1))"
  by (simp add: sync_def split: sum.splits)

lemma doValidate_line2:
  "doValidate [(sync required, m0), (sync pangram_validator, mp),
               (\<lambda>this value. validate_syllables g value n, m1)] doc v =
     (if \<not> required doc v then Inr (Some m0)
      else if \<not> pangram_validator doc v then Inr (Some mp)
      else case validate_syllables g v n of Inl e \<Rightarrow> Inl e
           | Inr ok \<Rightarrow> Inr (if ok then None else Some m1))"
  by (simp add: sync_def split: sum.splits)

lemma validate_valid_iff:
  "validate (PangramSchema g) doc = Inr [] \<longleftrightarrow>
     required doc (line1_5 doc) \<and> required doc (line2_7 doc) \<and> required doc (line3_5 doc)
     \<and> pangram_validator doc (line2_7 doc)
     \<and> validate_syllables g (line1_5 doc) 5 = Inr True
     \<and> validate_syllables g (line2_7 doc) 7 = Inr True
     \<and> validate_syllables g (line3_5 doc) 5 = Inr True"
  unfolding PangramSchema_def validate.simps doValidate_line1 doValidate_line2
  by (auto split: sum.splits if_splits option.splits)

lemma validate_line2_error:
  "\<not> pangram_validator doc (line2_7 doc) \<Longrightarrow> validate (PangramSchema g) doc = Inr errors \<Longrightarrow>
   map_of errors ''line2_7'' = Some (if required doc (line2_7 doc) then ''Not a pangram!'' else required_message ''line2_7'')"
  unfolding PangramSchema_def validate.simps doValidate_line1 doValidate_line2
  by (auto split: sum.splits if_splits option.splits)

lemma create_store:
  "snd (create g q db) = (if validate (PangramSchema g) (new_Pangram q) = Inr [] then db @ [(next_oid db, new_Pangram q)] else db)"
  by (simp add: create_def save_def split: sum.splits)

lemma create_valid:
  "validate (PangramSchema g) (new_Pangram q) = Inr [] \<Longrightarrow> fst (create g q db) = Inr (Redirect ''/'')"
  by (simp add: create_def save_def)

lemma create_invalid:
  "validate (PangramSchema g) (new_Pangram q) = Inr errors \<Longrightarrow> errors \<noteq> [] \<Longrightarrow>
   fst (create g q db) = Inr (Redirect (''/?error='' @ join (pushed_errors errors) '' ''
                          @ ''&line1_5='' @ ToString (q ''line1_5'')
                          @ ''&line2_7='' @ ToString (q ''line2_7'')
                          @ ''&line3_5='' @ ToString (q ''line3_5'')))"
  by (simp add: create_def save_def)

lemma fold_max_ge: "a \<le> fold (\<lambda>d m. max (Suc (fst d)) m) db (a::nat)"
proof (induction db arbitrary: a)
  case Nil
  show ?case by simp
next
  case (Cons x xs)
  have "a \<le> max (Suc (fst x)) a" by simp
  also have "\<dots> \<le> fold (\<lambda>d m. max (Suc (fst d)) m) xs (max (Suc (fst x)) a)"
    by (rule Cons.IH)
  finally show ?case by simp
qed

lemma fold_max_gt:
  "d \<in> set db \<Longrightarrow> fst d < fold (\<lambda>d m. max (Suc (fst d)) m) db (a::nat)"
proof (induction db arbitrary: a)
  case Nil
  then show ?case by simp
next
  case (Cons x xs)
  show ?case
  proof (cases "d = x")
    case True
    have "fst x < max (Suc (fst x)) a" by simp
    also have "\<dots> \<le> fold (\<lambda>d m. max (Suc (fst d)) m) xs (max (Suc (fst x)) a)"
      by (rule fold_max_ge)
    finally show ?thesis using True by simp
  next
    case False
    with Cons.prems have "d \<in> set xs" by simp
    from Cons.IH [OF this] show ?thesis by simp
  qed
qed

lemma next_oid_fresh: "d \<in> set db \<Longrightarrow> fst d < next_oid db"
  by (simp add: next_oid_def fold_max_gt)

lemma ids_increasing_insert:
  "ids_increasing db \<Longrightarrow> ids_increasing (db @ [(next_oid db, doc)])"
  by (auto simp: ids_increasing_def sorted_wrt_append dest: next_oid_fresh)

lemma find_sorted_increasing:
  assumes "ids_increasing db"
  shows "find_sorted db = rev (map snd db)"
proof -
  from assms have "sorted (map fst db)"
    by (simp add: ids_increasing_def strict_sorted_imp_sorted)
  then have "sort_key fst db = db"
    by (rule sort_key_id_if_sorted)
  then show ?thesis
    by (simp add: find_sorted_def rev_map)
qed

lemma create_ids_increasing:
  "ids_increasing db \<Longrightarrow> ids_increasing (snd (create g q db))"
  by (simp add: create_store ids_increasing_insert)

lemma serve_ids_increasing:
  "ids_increasing db \<Longrightarrow> ids_increasing (serve reqs db)"
proof (induction reqs arbitrary: db)
  case Nil
  then show ?case by simp
next
  case (Cons r reqs)
  obtain g q where r: "r = (g, q)" by (cases r)
  from Cons.prems have "ids_increasing (snd (create g q db))"
    by (rule create_ids_increasing)
  from Cons.IH [OF this] show ?case by (simp add: r)
qed

lemma serve_prefix: "prefix db (serve reqs db)"
proof (induction reqs arbitrary: db)
  case Nil
  show ?case by simp
next
  case (Cons r reqs)
  obtain g q where r: "r = (g, q)" by (cases r)
  have "prefix db (snd (create g q db))"
    by (simp add: create_store)
  also have "prefix \<dots> (serve reqs (snd (create g q db)))"
    by (rule Cons.IH)
  finally show ?case by (simp add: r)
qed

lemma create_stored_ok:
  assumes "\<forall>d \<in> set db. stored_ok (snd d)"
  shows "\<forall>d \<in> set (snd (create g q db)). stored_ok (snd d)"
proof (cases "validate (PangramSchema g) (new_Pangram q) = Inr []")
  case True
  then have "stored_ok (new_Pangram q)"
    by (simp add: validate_valid_iff stored_ok_def)
  with assms True show ?thesis by (simp add: create_store)
next
  case False
  with assms show ?thesis by (simp add: create_store)
qed

lemma serve_stored_ok:
  "\<forall>d \<in> set db. stored_ok (snd d) \<Longrightarrow> \<forall>d \<in> set (serve reqs db). stored_ok (snd d)"
proof (induction reqs arbitrary: db)
  case Nil
  then show ?case by simp
next
  case (Cons r reqs)
  obtain g q where r: "r = (g, q)" by (cases r)
  from Cons.prems have "\<forall>d \<in> set (snd (create g q db)). stored_ok (snd d)"
    by (rule create_stored_ok)
  from Cons.IH [OF this] show ?case by (simp add: r)
qed

lemma stored_ok_character_count:
  assumes "stored_ok d"
  shows "\<exists>a b c. line1_5 d = Str a \<and> line2_7 d = Str b \<and> line3_5 d = Str c
           \<and> character_count d = Inr (length a + length b + length c)"
  using assms
  by (auto simp: stored_ok_def required_def character_count_def split: jsval.splits)

lemma home_pangrams: "rendered_pangrams (home q db) = find_sorted db"
  by (simp add: home_def)

lemma required_line_ok: "required doc v = line_ok v"
  by (cases v) (auto simp: required_def line_ok_def)

lemma validate_syllables_eq:
  "g v \<noteq> NoBody \<Longrightarrow> validate_syllables g v n = Inr (service_syllables g v = Some n)"
  by (cases "g v") (simp_all add: validate_syllables_def service_syllables_def)

lemma validate_total:
  assumes "g (line1_5 doc) \<noteq> NoBody" "g (line2_7 doc) \<noteq> NoBody" "g (line3_5 doc) \<noteq> NoBody"
  shows "validate (PangramSchema g) doc =
     Inr ((if \<not> line_ok (line1_5 doc) then [(''line1_5'', required_message ''line1_5'')]
           else if service_syllables g (line1_5 doc) \<noteq> Some 5
                then [(''line1_5'', ''Line 1 doesn't have 5 syllables.'')] else [])
        @ (if \<not> line_ok (line2_7 doc) then [(''line2_7'', required_message ''line2_7'')]
           else if \<not> covers_alphabet (combined_text doc) then [(''line2_7'', ''Not a pangram!'')]
           else if service_syllables g (line2_7 doc) \<noteq> Some 7
                then [(''line2_7'', ''Line 2 doesn't have 7 syllables.'')] else [])
        @ (if \<not> line_ok (line3_5 doc) then [(''line3_5'', required_message ''line3_5'')]
           else if service_syllables g (line3_5 doc) \<noteq> Some 5
                then [(''line3_5'', ''Line 3 doesn't have 5 syllables.'')] else []))"
  using assms
  unfolding PangramSchema_def validate.simps doValidate_line1 doValidate_line2
  by (simp add: validate_syllables_eq required_line_ok pangram_validator_iff)

lemma pushed_errors_total:
  assumes "g (line1_5 doc) \<noteq> NoBody" "g (line2_7 doc) \<noteq> NoBody" "g (line3_5 doc) \<noteq> NoBody"
    and "validate (PangramSchema g) doc = Inr errors"
  shows "pushed_errors errors = surfaced_messages g doc"
  using assms(4) unfolding validate_total [OF assms(1-3)]
  by (auto simp: pushed_errors_def surfaced_messages_def failing_rules_def)

section \<open>Facts about the example requests\<close>

lemmas parse_defs = parseInt_def is_white_def is_digit_def digit_value_def digits_value_def
  toLowerCase_char_def upt_rec

lemma ex_fields:
  "line1_5 (new_Pangram ex_query) = Str ''The quick brown fox jumps''"
  "line2_7 (new_Pangram ex_query) = Str ''over the lazy dog and''"
  "line3_5 (new_Pangram ex_query) = Str ''into the sunset''"
  by (simp_all add: new_Pangram_def ex_query_def)

lemma short_fields:
  "line1_5 (new_Pangram short_query) = Str ''The quick brown fox jumps''"
  "line2_7 (new_Pangram short_query) = Str ''over the dog and''"
  "line3_5 (new_Pangram short_query) = Str ''into the sunset''"
  by (simp_all add: new_Pangram_def short_query_def ex_query_def)

lemma ex_service_values:
  "ex_service (Str ''The quick brown fox jumps'') = Body (Str ''5'')"
  "ex_service (Str ''over the lazy dog and'') = Body (Str ''7'')"
  "ex_service (Str ''into the sunset'') = Body (Str ''5'')"
  "ex_service (Str ''over the dog and'') = Body (Str ''4'')"
  by (simp_all add: ex_service_def)

lemma parseInt_values:
  "parseInt ''5'' = Some 5" "parseInt ''7'' = Some 7" "parseInt ''4'' = Some 4"
  by (simp_all add: parse_defs)

lemma ex_syllables:
  "service_syllables ex_service (Str ''The quick brown fox jumps'') = Some 5"
  "service_syllables ex_service (Str ''over the lazy dog and'') = Some 7"
  "service_syllables ex_service (Str ''into the sunset'') = Some 5"
  "service_syllables ex_service (Str ''over the dog and'') = Some 4"
  by (simp_all add: service_syllables_def ex_service_values parseInt_values)

lemma ex_covers: "covers_alphabet (combined_text (new_Pangram ex_query))"
  by (simp add: covers_alphabet_def combined_text_def ex_fields toLowerCase_def
      toLowerCase_char_def alphabet_def)

lemma short_not_covers: "\<not> covers_alphabet (combined_text (new_Pangram short_query))"
  by (simp add: covers_alphabet_def combined_text_def short_fields toLowerCase_def
      toLowerCase_char_def alphabet_def)

lemma ex_valid: "validate (PangramSchema ex_service) (new_Pangram ex_query) = Inr []"
  by (simp add: validate_valid_iff ex_fields required_def pangram_validator_iff ex_covers
      validate_syllables_True_iff ex_syllables)

lemma short_invalid:
  "validate (PangramSchema ex_service) (new_Pangram short_query) = Inr [(''line2_7'', ''Not a pangram!'')]"
  by (subst validate_total)
     (simp_all add: short_fields ex_service_values line_ok_def ex_syllables short_not_covers)

lemma validate_line1_throws:
  "required doc (line1_5 doc) \<Longrightarrow> g (line1_5 doc) = NoBody \<Longrightarrow>
   validate (PangramSchema g) doc = Inl TypeError"
  unfolding PangramSchema_def validate.simps doValidate_line1
  by (simp add: validate_syllables_NoBody)

lemma failing_invalid:
  "validate (PangramSchema failing_service) (new_Pangram ex_query) = Inl TypeError"
  by (rule validate_line1_throws) (simp_all add: ex_fields required_def failing_service_def)


lemma omits_letter_iff:
  "(\<exists>c \<in> set alphabet. c \<notin> set s) \<longleftrightarrow> \<not> covers_alphabet s"
  by (auto simp: covers_alphabet_def list_all_iff)

lemma validate_invalid_store:
  "validate (PangramSchema g) (new_Pangram q) \<noteq> Inr [] \<Longrightarrow> snd (create g q db) = db"
  by (simp add: create_store)

lemma new_Pangram_fields:
  "line1_5 (new_Pangram q) = q ''line1_5''"
  "line2_7 (new_Pangram q) = q ''line2_7''"
  "line3_5 (new_Pangram q) = q ''line3_5''"
  by (simp_all add: new_Pangram_def)

section \<open>The specified properties\<close>

text \<open>
  C1. A submission whose three lines, concatenated and lowercased, omit at least one of
  the 26 letters fails validation and is not persisted: the letter-coverage validator
  returns false, \<open>validate\<close> does not report a valid document (when it reports
  errors, the path \<open>line2_7\<close> has one), and \<open>create\<close> leaves the collection as
  it was, whatever the word-info service answers.
\<close>
theorem C1_missing_letter_rejected:
  assumes "\<exists>c \<in> set alphabet. c \<notin> set (combined_text (new_Pangram query))"
  shows "\<not> pangram_validator (new_Pangram query) (query ''line2_7'')
       \<and> validate (PangramSchema getWordInfo) (new_Pangram query) \<noteq> Inr []
       \<and> (\<forall>errors. validate (PangramSchema getWordInfo) (new_Pangram query) = Inr errors
            \<longrightarrow> map_of errors ''line2_7'' \<noteq> None)
       \<and> snd (create getWordInfo query db) = db"
proof -
  from assms have np: "\<not> pangram_validator (new_Pangram query) (line2_7 (new_Pangram query))"
    by (simp add: pangram_validator_iff omits_letter_iff)
  then have inv: "validate (PangramSchema getWordInfo) (new_Pangram query) \<noteq> Inr []"
    by (simp add: validate_valid_iff)
  have "map_of errors ''line2_7'' \<noteq> None"
    if "validate (PangramSchema getWordInfo) (new_Pangram query) = Inr errors" for errors
    using validate_line2_error [OF np that] by simp
  with np inv validate_invalid_store [OF inv] show ?thesis
    by (simp add: new_Pangram_fields)
qed

theorem C1_missing_letter_rejected_witness:
  "(\<exists>c \<in> set alphabet. c \<notin> set (combined_text (new_Pangram short_query)))
   \<and> \<not> pangram_validator (new_Pangram short_query) (short_query ''line2_7'')
   \<and> validate (PangramSchema ex_service) (new_Pangram short_query) \<noteq> Inr []
   \<and> snd (create ex_service short_query []) = []"
proof -
  have h: "\<exists>c \<in> set alphabet. c \<notin> set (combined_text (new_Pangram short_query))"
    using short_not_covers by (simp add: omits_letter_iff)
  from h C1_missing_letter_rejected [OF h, of ex_service "[]"] show ?thesis by blast
qed

text \<open>
  C2. Validation fails unless the service's syllable counts of the three lines are
  exactly 5, 7 and 5: when one of them differs (or the service gives no number),
  \<open>validate\<close> does not report a valid document and nothing is stored.
\<close>
theorem C2_syllables_5_7_5:
  assumes "\<not> (service_syllables getWordInfo (query ''line1_5'') = Some 5
             \<and> service_syllables getWordInfo (query ''line2_7'') = Some 7
             \<and> service_syllables getWordInfo (query ''line3_5'') = Some 5)"
  shows "validate (PangramSchema getWordInfo) (new_Pangram query) \<noteq> Inr []
       \<and> snd (create getWordInfo query db) = db"
proof -
  from assms have inv: "validate (PangramSchema getWordInfo) (new_Pangram query) \<noteq> Inr []"
    by (auto simp: validate_valid_iff validate_syllables_True_iff new_Pangram_fields)
  with validate_invalid_store [OF inv] show ?thesis by simp
qed

theorem C2_syllables_5_7_5_witness:
  "\<not> (service_syllables ex_service (short_query ''line1_5'') = Some 5
      \<and> service_syllables ex_service (short_query ''line2_7'') = Some 7
      \<and> service_syllables ex_service (short_query ''line3_5'') = Some 5)
   \<and> validate (PangramSchema ex_service) (new_Pangram short_query) \<noteq> Inr []
   \<and> snd (create ex_service short_query []) = []"
proof -
  have h: "\<not> (service_syllables ex_service (short_query ''line1_5'') = Some 5
      \<and> service_syllables ex_service (short_query ''line2_7'') = Some 7
      \<and> service_syllables ex_service (short_query ''line3_5'') = Some 5)"
    by (simp add: short_query_def ex_syllables)
  from h C2_syllables_5_7_5 [OF h, of "[]"] show ?thesis by blast
qed

text \<open>
  C3. A submission that passes validation adds exactly one record, the submitted
  document, after the records already stored. The listing that follows shows it first
  and the earlier records after it, and every later listing shows all stored records in
  reverse order of insertion; the record stays in the collection. The collection is
  any one that the create route has built from the empty one.
\<close>
theorem C3_stored_once_listed_newest_first:
  assumes "validate (PangramSchema getWordInfo) (new_Pangram query) = Inr []"
  shows "(let db = serve reqs [];
              db' = snd (create getWordInfo query db);
              db'' = serve later db'
          in db' = db @ [(next_oid db, new_Pangram query)]
             \<and> rendered_pangrams (home q db') = new_Pangram query # rendered_pangrams (home q db)
             \<and> rendered_pangrams (home q db') = rev (map snd db')
             \<and> prefix db' db''
             \<and> rendered_pangrams (home q'' db'') = rev (map snd db''))"
proof -
  define db where "db = serve reqs []"
  define db' where "db' = snd (create getWordInfo query db)"
  define db'' where "db'' = serve later db'"
  have inc: "ids_increasing db"
    unfolding db_def by (rule serve_ids_increasing) (simp add: ids_increasing_def)
  then have inc': "ids_increasing db'"
    unfolding db'_def by (rule create_ids_increasing)
  then have inc'': "ids_increasing db''"
    unfolding db''_def by (rule serve_ids_increasing)
  have one: "db' = db @ [(next_oid db, new_Pangram query)]"
    using assms by (simp add: db'_def create_store)
  have l: "rendered_pangrams (home q db) = rev (map snd db)"
    by (simp add: home_pangrams find_sorted_increasing [OF inc])
  have l': "rendered_pangrams (home q db') = rev (map snd db')"
    by (simp add: home_pangrams find_sorted_increasing [OF inc'])
  have l'': "rendered_pangrams (home q'' db'') = rev (map snd db'')"
    by (simp add: home_pangrams find_sorted_increasing [OF inc''])
  have p: "prefix db' db''"
    unfolding db''_def by (rule serve_prefix)
  from one l l' have "rendered_pangrams (home q db') = new_Pangram query # rendered_pangrams (home q db)"
    by simp
  with one l' p l'' show ?thesis
    unfolding Let_def db_def [symmetric] db'_def [symmetric] db''_def [symmetric] by simp
qed

theorem C3_stored_once_listed_newest_first_witness:
  "validate (PangramSchema ex_service) (new_Pangram ex_query) = Inr []
   \<and> (let db = serve [(ex_service, short_query)] [];
           db' = snd (create ex_service ex_query db);
           db'' = serve [(ex_service, ex_query)] db'
       in db' = db @ [(next_oid db, new_Pangram ex_query)]
          \<and> rendered_pangrams (home (\<lambda>k. Undefined) db')
              = new_Pangram ex_query # rendered_pangrams (home (\<lambda>k. Undefined) db)
          \<and> rendered_pangrams (home (\<lambda>k. Undefined) db') = rev (map snd db')
          \<and> prefix db' db''
          \<and> rendered_pangrams (home (\<lambda>k. Undefined) db'') = rev (map snd db''))"
  using ex_valid
    C3_stored_once_listed_newest_first [OF ex_valid,
      where reqs = "[(ex_service, short_query)]" and later = "[(ex_service, ex_query)]"
        and q = "\<lambda>k. Undefined" and q'' = "\<lambda>k. Undefined"]
  by blast


lemma join_nonempty: "xs \<noteq> [] \<Longrightarrow> \<forall>x \<in> set xs. x \<noteq> [] \<Longrightarrow> join xs sep \<noteq> []"
  by (induction xs sep rule: join.induct) auto

lemma doValidate_message:
  "doValidate vs doc v = Inr (Some m) \<Longrightarrow> m \<in> snd ` set vs"
proof (induction vs)
  case Nil
  then show ?case by simp
next
  case (Cons a vs)
  obtain f msg where a: "a = (f, msg)" by (cases a)
  from Cons show ?case
    by (auto simp: a split: sum.splits if_splits)
qed

lemma validate_three:
  assumes "validate [(p1, g1, vs1), (p2, g2, vs2), (p3, g3, vs3)] doc = Inr errors"
  shows "\<exists>r1 r2 r3. doValidate vs1 doc (g1 doc) = Inr r1
           \<and> doValidate vs2 doc (g2 doc) = Inr r2
           \<and> doValidate vs3 doc (g3 doc) = Inr r3
           \<and> errors = (case r1 of None \<Rightarrow> [] | Some m \<Rightarrow> [(p1, m)])
                      @ (case r2 of None \<Rightarrow> [] | Some m \<Rightarrow> [(p2, m)])
                      @ (case r3 of None \<Rightarrow> [] | Some m \<Rightarrow> [(p3, m)])"
  using assms by (auto split: sum.splits option.splits)

lemma pushed_errors_paths:
  "pushed_errors ((case r1 of None \<Rightarrow> [] | Some m \<Rightarrow> [(''line1_5'', m)])
                  @ (case r2 of None \<Rightarrow> [] | Some m \<Rightarrow> [(''line2_7'', m)])
                  @ (case r3 of None \<Rightarrow> [] | Some m \<Rightarrow> [(''line3_5'', m)]))
   = (case r1 of None \<Rightarrow> [] | Some m \<Rightarrow> [m]) @ (case r2 of None \<Rightarrow> [] | Some m \<Rightarrow> [m])
     @ (case r3 of None \<Rightarrow> [] | Some m \<Rightarrow> [m])"
  by (cases r1; cases r2; cases r3) (simp_all add: pushed_errors_def)

lemma schema_messages_nonempty:
  "(p, getter, vs) \<in> set (PangramSchema g) \<Longrightarrow> m \<in> snd ` set vs \<Longrightarrow> m \<noteq> []"
  by (auto simp: PangramSchema_def required_message_def)

lemma pushed_errors_shape:
  assumes "validate (PangramSchema g) doc = Inr errors" and "errors \<noteq> []"
  shows "pushed_errors errors \<noteq> [] \<and> (\<forall>m \<in> set (pushed_errors errors). m \<noteq> [])"
proof -
  obtain vs1 vs2 vs3 where S: "PangramSchema g =
      [(''line1_5'', line1_5, vs1), (''line2_7'', line2_7, vs2), (''line3_5'', line3_5, vs3)]"
    by (simp add: PangramSchema_def)
  from assms(1) obtain r1 r2 r3 where
    r: "doValidate vs1 doc (line1_5 doc) = Inr r1" "doValidate vs2 doc (line2_7 doc) = Inr r2"
       "doValidate vs3 doc (line3_5 doc) = Inr r3"
    and e: "errors = (case r1 of None \<Rightarrow> [] | Some m \<Rightarrow> [(''line1_5'', m)])
                      @ (case r2 of None \<Rightarrow> [] | Some m \<Rightarrow> [(''line2_7'', m)])
                      @ (case r3 of None \<Rightarrow> [] | Some m \<Rightarrow> [(''line3_5'', m)])"
    unfolding S by (blast dest: validate_three)
  have ne: "m \<noteq> []" if "r1 = Some m \<or> r2 = Some m \<or> r3 = Some m" for m
  proof -
    from that r have "m \<in> snd ` set vs1 \<or> m \<in> snd ` set vs2 \<or> m \<in> snd ` set vs3"
      by (auto dest: doValidate_message)
    then show ?thesis
      using schema_messages_nonempty [of _ _ _ g m] unfolding S by auto
  qed
  have p: "pushed_errors errors = (case r1 of None \<Rightarrow> [] | Some m \<Rightarrow> [m])
      @ (case r2 of None \<Rightarrow> [] | Some m \<Rightarrow> [m]) @ (case r3 of None \<Rightarrow> [] | Some m \<Rightarrow> [m])"
    unfolding e by (rule pushed_errors_paths)
  from assms(2) e have "pushed_errors errors \<noteq> []"
    unfolding p by (auto split: option.splits)
  moreover have "\<forall>m \<in> set (pushed_errors errors). m \<noteq> []"
    unfolding p using ne by (auto split: option.splits)
  ultimately show ?thesis by simp
qed


lemma unknown_fields:
  "unknown_query ''line1_5'' = Str ''The quick brown fox jumps''"
  "unknown_query ''line2_7'' = Str ''over the lazy dog and''"
  "unknown_query ''line3_5'' = Str ''at dusk''"
  by (simp_all add: unknown_query_def ex_query_def)

lemma unknown_service:
  "ex_service (Str ''at dusk'') = Body Undefined"
  "service_syllables ex_service (Str ''at dusk'') = None"
  by (simp_all add: ex_service_def service_syllables_def parse_defs)

lemma validate_total_Nil_iff:
  assumes "g (line1_5 doc) \<noteq> NoBody" "g (line2_7 doc) \<noteq> NoBody" "g (line3_5 doc) \<noteq> NoBody"
  shows "validate (PangramSchema g) doc = Inr [] \<longleftrightarrow> failing_rules g doc = []"
  unfolding validate_total [OF assms]
  by (simp add: failing_rules_def)

lemma validate_total_errors:
  assumes "g (line1_5 doc) \<noteq> NoBody" "g (line2_7 doc) \<noteq> NoBody" "g (line3_5 doc) \<noteq> NoBody"
  shows "\<exists>errors. validate (PangramSchema g) doc = Inr errors
           \<and> (service_syllables g (line1_5 doc) \<noteq> Some 5 \<longrightarrow> map_of errors ''line1_5'' \<noteq> None)
           \<and> (service_syllables g (line2_7 doc) \<noteq> Some 7 \<longrightarrow> map_of errors ''line2_7'' \<noteq> None)
           \<and> (service_syllables g (line3_5 doc) \<noteq> Some 5 \<longrightarrow> map_of errors ''line3_5'' \<noteq> None)"
  unfolding validate_total [OF assms]
  by simp

text \<open>
  C4. A submission that fails validation adds no record, and the response is a redirect
  whose \<open>error\<close> parameter is the non-empty text of the joined messages.
\<close>

theorem C4_failure_keeps_store_and_reports:
  assumes "validate (PangramSchema getWordInfo) (new_Pangram query) = Inr errors"
    and "errors \<noteq> []"
  shows "snd (create getWordInfo query db) = db
       \<and> join (pushed_errors errors) '' '' \<noteq> ''''
       \<and> fst (create getWordInfo query db) =
           Inr (Redirect (''/?error='' @ join (pushed_errors errors) '' ''
                          @ ''&line1_5='' @ ToString (query ''line1_5'')
                          @ ''&line2_7='' @ ToString (query ''line2_7'')
                          @ ''&line3_5='' @ ToString (query ''line3_5'')))"
proof -
  from assms have "validate (PangramSchema getWordInfo) (new_Pangram query) \<noteq> Inr []"
    by simp
  then have "snd (create getWordInfo query db) = db"
    by (rule validate_invalid_store)
  moreover from pushed_errors_shape [OF assms] have "join (pushed_errors errors) '' '' \<noteq> ''''"
    by (simp add: join_nonempty)
  ultimately show ?thesis
    using create_invalid [OF assms] by simp
qed

theorem C4_failure_keeps_store_and_reports_witness:
  "validate (PangramSchema ex_service) (new_Pangram short_query) = Inr [(''line2_7'', ''Not a pangram!'')]
   \<and> [(''line2_7'', ''Not a pangram!'')] \<noteq> []
   \<and> snd (create ex_service short_query []) = []
   \<and> fst (create ex_service short_query []) =
       Inr (Redirect ''/?error=Not a pangram!&line1_5=The quick brown fox jumps&line2_7=over the dog and&line3_5=into the sunset'')"
proof -
  have ne: "[(''line2_7'', ''Not a pangram!'')] \<noteq> ([] :: (string \<times> string) list)" by simp
  from C4_failure_keeps_store_and_reports [OF short_invalid ne, of "[]"] short_invalid
  show ?thesis
    by (simp add: pushed_errors_def short_query_def ex_query_def)
qed


text \<open>
  C5 as stated does not hold: the messages are kept by path, one for each path, so a
  second rule that fails on the same path is not reported. With a second line that lacks
  letters and has 4 syllables, two rules of \<open>line2_7\<close> fail and the redirect carries
  only the first message.
\<close>

theorem C5_counterexample:
  "map snd (failing_rules ex_service (new_Pangram short_query))
     = [''Not a pangram!'', ''Line 2 doesn't have 7 syllables.'']
   \<and> fst (create ex_service short_query []) =
       Inr (Redirect ''/?error=Not a pangram!&line1_5=The quick brown fox jumps&line2_7=over the dog and&line3_5=into the sunset'')"
proof -
  have "map snd (failing_rules ex_service (new_Pangram short_query))
     = [''Not a pangram!'', ''Line 2 doesn't have 7 syllables.'']"
    by (simp add: failing_rules_def short_fields line_ok_def ex_syllables short_not_covers)
  moreover have "[(''line2_7'', ''Not a pangram!'')] \<noteq> ([] :: (string \<times> string) list)"
    by simp
  from create_invalid [OF short_invalid this, of "[]"]
  have "fst (create ex_service short_query []) =
       Inr (Redirect ''/?error=Not a pangram!&line1_5=The quick brown fox jumps&line2_7=over the dog and&line3_5=into the sunset'')"
    by (simp add: pushed_errors_def short_query_def ex_query_def)
  ultimately show ?thesis by simp
qed

text \<open>
  C5, amended. When the service answers each of the three lines with a body and some
  rule fails, every path with a failing rule contributes one message, that of its first
  failing rule (a missing line, then letter coverage on line 2, then the syllable
  count), and the error text of the redirect is these messages joined by single spaces
  in the order line 1, line 2, line 3.
\<close>

theorem C5_first_failing_rule_of_each_path:
  assumes "getWordInfo (query ''line1_5'') \<noteq> NoBody"
    and "getWordInfo (query ''line2_7'') \<noteq> NoBody"
    and "getWordInfo (query ''line3_5'') \<noteq> NoBody"
    and "failing_rules getWordInfo (new_Pangram query) \<noteq> []"
  shows "fst (create getWordInfo query db) =
           Inr (Redirect (''/?error=''
                          @ join (surfaced_messages getWordInfo (new_Pangram query)) '' ''
                          @ ''&line1_5='' @ ToString (query ''line1_5'')
                          @ ''&line2_7='' @ ToString (query ''line2_7'')
                          @ ''&line3_5='' @ ToString (query ''line3_5'')))"
proof -
  have b: "getWordInfo (line1_5 (new_Pangram query)) \<noteq> NoBody"
    "getWordInfo (line2_7 (new_Pangram query)) \<noteq> NoBody"
    "getWordInfo (line3_5 (new_Pangram query)) \<noteq> NoBody"
    using assms(1-3) by (simp_all add: new_Pangram_fields)
  obtain errors where v: "validate (PangramSchema getWordInfo) (new_Pangram query) = Inr errors"
    using validate_total [OF b] by simp
  with assms(4) have ne: "errors \<noteq> []"
    using validate_total_Nil_iff [OF b] by auto
  have "pushed_errors errors = surfaced_messages getWordInfo (new_Pangram query)"
    using b v by (rule pushed_errors_total)
  with create_invalid [OF v ne, of db] show ?thesis by simp
qed

theorem C5_first_failing_rule_of_each_path_witness:
  "ex_service (short_query ''line1_5'') \<noteq> NoBody
   \<and> ex_service (short_query ''line2_7'') \<noteq> NoBody
   \<and> ex_service (short_query ''line3_5'') \<noteq> NoBody
   \<and> failing_rules ex_service (new_Pangram short_query) \<noteq> []
   \<and> surfaced_messages ex_service (new_Pangram short_query) = [''Not a pangram!'']
   \<and> fst (create ex_service short_query []) =
        Inr (Redirect (''/?error='' @ join [''Not a pangram!''] '' ''
                       @ ''&line1_5='' @ ToString (short_query ''line1_5'')
                       @ ''&line2_7='' @ ToString (short_query ''line2_7'')
                       @ ''&line3_5='' @ ToString (short_query ''line3_5'')))"
proof -
  have q: "short_query ''line1_5'' = Str ''The quick brown fox jumps''"
    "short_query ''line2_7'' = Str ''over the dog and''"
    "short_query ''line3_5'' = Str ''into the sunset''"
    by (simp_all add: short_query_def ex_query_def)
  have h1: "ex_service (short_query ''line1_5'') \<noteq> NoBody"
    and h2: "ex_service (short_query ''line2_7'') \<noteq> NoBody"
    and h3: "ex_service (short_query ''line3_5'') \<noteq> NoBody"
    by (simp_all add: q ex_service_values)
  have f: "failing_rules ex_service (new_Pangram short_query)
      = [(''line2_7'', ''Not a pangram!''), (''line2_7'', ''Line 2 doesn't have 7 syllables.'')]"
    by (simp add: failing_rules_def short_fields line_ok_def ex_syllables short_not_covers)
  then have h4: "failing_rules ex_service (new_Pangram short_query) \<noteq> []"
    by simp
  have s: "surfaced_messages ex_service (new_Pangram short_query) = [''Not a pangram!'']"
    by (simp add: surfaced_messages_def f)
  from C5_first_failing_rule_of_each_path [OF h1 h2 h3 h4, of "[]"] h1 h2 h3 h4 s
  show ?thesis by simp
qed

text \<open>
  C6 as stated does not hold: a request that ends without a body is not handled.
  Reading \<open>syllables\<close> of the missing body throws, so the create request ends with a
  TypeError and no response, also for a submission whose other checks all pass.
\<close>

theorem C6_counterexample:
  "failing_service (ex_query ''line1_5'') = NoBody
   \<and> validate_syllables failing_service (ex_query ''line1_5'') 5 = Inl TypeError
   \<and> create failing_service ex_query [] = (Inl TypeError, [])"
proof -
  have "failing_service (ex_query ''line1_5'') = NoBody"
    by (simp add: failing_service_def ex_query_def)
  moreover from this
  have "validate_syllables failing_service (ex_query ''line1_5'') 5 = Inl TypeError"
    by (rule validate_syllables_NoBody)
  moreover have "create failing_service ex_query [] = (Inl TypeError, [])"
    by (simp add: create_def save_def failing_invalid)
  ultimately show ?thesis by simp
qed

text \<open>
  C6, amended. When the service answers each of the three lines with a body, the
  create request ends with a response and never with an exception; each lookup is
  decided by its one answer; and a line whose answer holds no number, or another number
  than required, gets an error, so the submission is rejected and nothing is stored.
\<close>

theorem C6_unusable_answer_fails_the_line:
  assumes "getWordInfo (query ''line1_5'') \<noteq> NoBody"
    and "getWordInfo (query ''line2_7'') \<noteq> NoBody"
    and "getWordInfo (query ''line3_5'') \<noteq> NoBody"
  shows "\<exists>errors url.
           validate (PangramSchema getWordInfo) (new_Pangram query) = Inr errors
           \<and> fst (create getWordInfo query db) = Inr (Redirect url)
           \<and> (\<forall>(path, n) \<in> set [(''line1_5'', 5), (''line2_7'', 7), (''line3_5'', 5)].
                 validate_syllables getWordInfo (query path) n
                   = Inr (service_syllables getWordInfo (query path) = Some n)
                 \<and> (service_syllables getWordInfo (query path) \<noteq> Some n
                      \<longrightarrow> map_of errors path \<noteq> None \<and> snd (create getWordInfo query db) = db))"
proof -
  have b: "getWordInfo (line1_5 (new_Pangram query)) \<noteq> NoBody"
    "getWordInfo (line2_7 (new_Pangram query)) \<noteq> NoBody"
    "getWordInfo (line3_5 (new_Pangram query)) \<noteq> NoBody"
    using assms by (simp_all add: new_Pangram_fields)
  from validate_total_errors [OF b] obtain errors where
    v: "validate (PangramSchema getWordInfo) (new_Pangram query) = Inr errors"
    and e1: "service_syllables getWordInfo (query ''line1_5'') \<noteq> Some 5 \<Longrightarrow> map_of errors ''line1_5'' \<noteq> None"
    and e2: "service_syllables getWordInfo (query ''line2_7'') \<noteq> Some 7 \<Longrightarrow> map_of errors ''line2_7'' \<noteq> None"
    and e3: "service_syllables getWordInfo (query ''line3_5'') \<noteq> Some 5 \<Longrightarrow> map_of errors ''line3_5'' \<noteq> None"
    by (auto simp: new_Pangram_fields)
  have r: "\<exists>url. fst (create getWordInfo query db) = Inr (Redirect url)"
  proof (cases "errors = []")
    case True
    with v create_valid [of getWordInfo query db] show ?thesis by simp
  next
    case False
    with create_invalid [OF v, of db] show ?thesis by simp
  qed
  have s: "snd (create getWordInfo query db) = db" if "map_of errors path \<noteq> None" for path
  proof -
    from that have "errors \<noteq> []" by auto
    with v have "validate (PangramSchema getWordInfo) (new_Pangram query) \<noteq> Inr []" by simp
    then show ?thesis by (rule validate_invalid_store)
  qed
  from r obtain url where u: "fst (create getWordInfo query db) = Inr (Redirect url)" ..
  have "validate (PangramSchema getWordInfo) (new_Pangram query) = Inr errors
           \<and> fst (create getWordInfo query db) = Inr (Redirect url)
           \<and> (\<forall>(path, n) \<in> set [(''line1_5'', 5), (''line2_7'', 7), (''line3_5'', 5)].
                 validate_syllables getWordInfo (query path) n
                   = Inr (service_syllables getWordInfo (query path) = Some n)
                 \<and> (service_syllables getWordInfo (query path) \<noteq> Some n
                      \<longrightarrow> map_of errors path \<noteq> None \<and> snd (create getWordInfo query db) = db))"
    using v u e1 e2 e3 s [of "''line1_5''"] s [of "''line2_7''"] s [of "''line3_5''"] assms
    by (auto simp: validate_syllables_eq)
  then show ?thesis by blast
qed

theorem C6_unusable_answer_fails_the_line_witness:
  "ex_service (unknown_query ''line1_5'') \<noteq> NoBody
   \<and> ex_service (unknown_query ''line2_7'') \<noteq> NoBody
   \<and> ex_service (unknown_query ''line3_5'') \<noteq> NoBody
   \<and> ex_service (unknown_query ''line3_5'') = Body Undefined
   \<and> validate_syllables ex_service (unknown_query ''line3_5'') 5 = Inr False
   \<and> snd (create ex_service unknown_query []) = []
   \<and> (\<exists>url. fst (create ex_service unknown_query []) = Inr (Redirect url))"
proof -
  have h1: "ex_service (unknown_query ''line1_5'') \<noteq> NoBody"
    and h2: "ex_service (unknown_query ''line2_7'') \<noteq> NoBody"
    and h3: "ex_service (unknown_query ''line3_5'') \<noteq> NoBody"
    by (simp_all add: unknown_fields ex_service_values unknown_service)
  have n: "service_syllables ex_service (unknown_query ''line3_5'') \<noteq> Some 5"
    by (simp add: unknown_fields unknown_service)
  from C6_unusable_answer_fails_the_line [OF h1 h2 h3, of "[]"] n h1 h2 h3
  show ?thesis
    by (auto simp: unknown_fields unknown_service)
qed


lemma validate_no_counts:
  assumes "g (line1_5 doc) = Body Undefined" "g (line2_7 doc) = Body Undefined"
    "g (line3_5 doc) = Body Undefined"
    and "line_ok (line1_5 doc)" "line_ok (line2_7 doc)" "line_ok (line3_5 doc)"
    and "\<not> covers_alphabet (combined_text doc)"
  shows "validate (PangramSchema g) doc =
           Inr [(''line1_5'', ''Line 1 doesn't have 5 syllables.''),
                (''line2_7'', ''Not a pangram!''),
                (''line3_5'', ''Line 3 doesn't have 5 syllables.'')]"
proof -
  have n: "service_syllables g (line1_5 doc) = None" "service_syllables g (line3_5 doc) = None"
    using assms(1,3) by (simp_all add: service_syllables_def parse_defs)
  have b: "g (line1_5 doc) \<noteq> NoBody" "g (line2_7 doc) \<noteq> NoBody" "g (line3_5 doc) \<noteq> NoBody"
    using assms(1-3) by simp_all
  show ?thesis
    unfolding validate_total [OF b] using assms(4-7) n by simp
qed

lemma query_values:
  "amp_query ''line1_5'' = Str ''a&b=c#d''" "amp_query ''line2_7'' = Str ''e''"
  "amp_query ''line3_5'' = Str ''f''"
  "left_query ''line1_5'' = Str ''a&line2_7=b''" "left_query ''line2_7'' = Str ''c''"
  "left_query ''line3_5'' = Str ''d''"
  "right_query ''line1_5'' = Str ''a''" "right_query ''line2_7'' = Str ''b&line2_7=c''"
  "right_query ''line3_5'' = Str ''d''"
  by (simp_all add: amp_query_def left_query_def right_query_def)

lemma ex_service_no_counts:
  "ex_service (Str ''a&b=c#d'') = Body Undefined" "ex_service (Str ''e'') = Body Undefined"
  "ex_service (Str ''f'') = Body Undefined" "ex_service (Str ''a&line2_7=b'') = Body Undefined"
  "ex_service (Str ''c'') = Body Undefined" "ex_service (Str ''d'') = Body Undefined"
  "ex_service (Str ''a'') = Body Undefined" "ex_service (Str ''b&line2_7=c'') = Body Undefined"
  by (simp_all add: ex_service_def)

lemma queries_invalid:
  "validate (PangramSchema ex_service) (new_Pangram amp_query) =
           Inr [(''line1_5'', ''Line 1 doesn't have 5 syllables.''),
                (''line2_7'', ''Not a pangram!''),
                (''line3_5'', ''Line 3 doesn't have 5 syllables.'')]"
  "validate (PangramSchema ex_service) (new_Pangram left_query) =
           Inr [(''line1_5'', ''Line 1 doesn't have 5 syllables.''),
                (''line2_7'', ''Not a pangram!''),
                (''line3_5'', ''Line 3 doesn't have 5 syllables.'')]"
  "validate (PangramSchema ex_service) (new_Pangram right_query) =
           Inr [(''line1_5'', ''Line 1 doesn't have 5 syllables.''),
                (''line2_7'', ''Not a pangram!''),
                (''line3_5'', ''Line 3 doesn't have 5 syllables.'')]"
  by (rule validate_no_counts;
      simp add: new_Pangram_fields query_values ex_service_no_counts line_ok_def
        covers_alphabet_def combined_text_def toLowerCase_def toLowerCase_char_def alphabet_def)+

text \<open>
  C7. The create route answers a valid submission with a redirect to \<open>/\<close> without
  parameters. On a validation failure it redirects to \<open>/\<close> with the parameters
  \<open>error\<close>, \<open>line1_5\<close>, \<open>line2_7\<close> and \<open>line3_5\<close>, but it writes the submitted
  values into the URL as they are. The list route says of these parameters that the
  existing input is passed from the redirect of \<open>/create\<close>; that fails for a value with
  a character that has a meaning in a URL. For the first line \<open>a&b=c#d\<close> the query of the
  redirect ends the parameter \<open>line1_5\<close> at \<open>&\<close> and the whole query at \<open>#\<close>, so the
  second and the third line are not in it; and two submissions that differ in their
  first and second line get the same redirect, so no reading of the redirect gives back
  what was submitted.
\<close>

theorem C7_submitted_values_not_encoded:
  "fst (create ex_service amp_query []) =
     Inr (Redirect ''/?error=Line 1 doesn't have 5 syllables. Not a pangram! Line 3 doesn't have 5 syllables.&line1_5=a&b=c#d&line2_7=e&line3_5=f'')
   \<and> left_query ''line1_5'' \<noteq> right_query ''line1_5''
   \<and> left_query ''line2_7'' \<noteq> right_query ''line2_7''
   \<and> fst (create ex_service left_query []) =
     Inr (Redirect ''/?error=Line 1 doesn't have 5 syllables. Not a pangram! Line 3 doesn't have 5 syllables.&line1_5=a&line2_7=b&line2_7=c&line3_5=d'')
   \<and> fst (create ex_service right_query []) = fst (create ex_service left_query [])
   \<and> fst (create ex_service ex_query []) = Inr (Redirect ''/'')"
proof -
  have ne: "[(''line1_5'', ''Line 1 doesn't have 5 syllables.''),
             (''line2_7'', ''Not a pangram!''),
             (''line3_5'', ''Line 3 doesn't have 5 syllables.'')] \<noteq> ([] :: (string \<times> string) list)"
    by simp
  have p: "join (pushed_errors [(''line1_5'', ''Line 1 doesn't have 5 syllables.''),
             (''line2_7'', ''Not a pangram!''),
             (''line3_5'', ''Line 3 doesn't have 5 syllables.'')]) '' ''
        = ''Line 1 doesn't have 5 syllables. Not a pangram! Line 3 doesn't have 5 syllables.''"
    by (simp add: pushed_errors_def)
  have a: "fst (create ex_service amp_query []) =
     Inr (Redirect ''/?error=Line 1 doesn't have 5 syllables. Not a pangram! Line 3 doesn't have 5 syllables.&line1_5=a&b=c#d&line2_7=e&line3_5=f'')"
    unfolding create_invalid [OF queries_invalid(1) ne] p by (simp add: query_values)
  have l: "fst (create ex_service left_query []) =
     Inr (Redirect ''/?error=Line 1 doesn't have 5 syllables. Not a pangram! Line 3 doesn't have 5 syllables.&line1_5=a&line2_7=b&line2_7=c&line3_5=d'')"
    unfolding create_invalid [OF queries_invalid(2) ne] p by (simp add: query_values)
  have r: "fst (create ex_service right_query []) =
     Inr (Redirect ''/?error=Line 1 doesn't have 5 syllables. Not a pangram! Line 3 doesn't have 5 syllables.&line1_5=a&line2_7=b&line2_7=c&line3_5=d'')"
    unfolding create_invalid [OF queries_invalid(3) ne] p by (simp add: query_values)
  have v: "fst (create ex_service ex_query []) = Inr (Redirect ''/'')"
    using ex_valid by (rule create_valid)
  from a l r v show ?thesis by (simp add: query_values)
qed

text \<open>
  C8. For every record stored by the create route, the three lines are strings and
  \<open>character_count\<close> is the sum of their lengths, every character counted.
\<close>

theorem C8_character_count_is_sum_of_lengths:
  assumes "d \<in> set (serve reqs [])"
  shows "\<exists>a b c. line1_5 (snd d) = Str a \<and> line2_7 (snd d) = Str b \<and> line3_5 (snd d) = Str c
           \<and> character_count (snd d) = Inr (length a + length b + length c)"
proof -
  have "\<forall>d \<in> set (serve reqs []). stored_ok (snd d)"
    by (rule serve_stored_ok) simp
  with assms have "stored_ok (snd d)" by blast
  then show ?thesis by (rule stored_ok_character_count)
qed

theorem C8_character_count_is_sum_of_lengths_witness:
  "(0, new_Pangram ex_query) \<in> set (serve [(ex_service, ex_query)] [])
   \<and> character_count (new_Pangram ex_query) = Inr (25 + 21 + 15)"
proof -
  have h: "(0, new_Pangram ex_query) \<in> set (serve [(ex_service, ex_query)] [])"
    by (simp add: create_store ex_valid next_oid_def)
  from C8_character_count_is_sum_of_lengths [OF h] h show ?thesis
    by (auto simp: ex_fields)
qed

text \<open>
  C10. The letter-coverage validator returns a value for every document, also when
  lines are absent: an absent line counts as the empty string, and the result says
  whether the lowercased text of the lines that are there contains all 26 letters. As
  a validator of the schema it never ends with an exception.
\<close>

theorem C10_letter_validator_total:
  "pangram_validator this value = covers_alphabet (combined_text this)
   \<and> sync pangram_validator this value = Inr (covers_alphabet (combined_text this))
   \<and> combined_text \<lparr>line1_5 = Undefined, line2_7 = Undefined, line3_5 = Undefined\<rparr> = ''''
   \<and> \<not> pangram_validator \<lparr>line1_5 = Undefined, line2_7 = Undefined, line3_5 = Undefined\<rparr> value"
proof -
  have "combined_text \<lparr>line1_5 = Undefined, line2_7 = Undefined, line3_5 = Undefined\<rparr> = ''''"
    by (simp add: combined_text_def toLowerCase_def)
  moreover from this
  have "\<not> covers_alphabet (combined_text \<lparr>line1_5 = Undefined, line2_7 = Undefined, line3_5 = Undefined\<rparr>)"
    by (simp add: covers_alphabet_def alphabet_def)
  ultimately show ?thesis
    by (simp add: pangram_validator_iff sync_def)
qed

theorem C10_letter_validator_total_witness:
  "pangram_validator
     \<lparr>line1_5 = Undefined, line2_7 = Str ''The quick brown fox jumps over the lazy dog'',
      line3_5 = Undefined\<rparr> Undefined
   \<and> \<not> pangram_validator
     \<lparr>line1_5 = Str ''The quick brown fox jumps'', line2_7 = Undefined, line3_5 = Undefined\<rparr>
     Undefined"
  using C10_letter_validator_total
    [of "\<lparr>line1_5 = Undefined, line2_7 = Str ''The quick brown fox jumps over the lazy dog'',
          line3_5 = Undefined\<rparr>" Undefined]
    C10_letter_validator_total
    [of "\<lparr>line1_5 = Str ''The quick brown fox jumps'', line2_7 = Undefined,
          line3_5 = Undefined\<rparr>" Undefined]
  by (simp add: covers_alphabet_def combined_text_def toLowerCase_def toLowerCase_char_def
      alphabet_def)

end
